theory Spec2Isabelle
  imports Complex_Main
begin

section \<open>Numbers and text\<close>

text \<open>
  The program computes with Python floats. They are modelled as exact reals: every
  comparison, \<open>min\<close>, \<open>max\<close> and arithmetic step is the one the source writes, without
  the binary rounding error of a double. The decimal rounding \<open>round(x, n)\<close>, which the
  source applies on purpose, is part of the model (\<open>round_py\<close>, ties to even as
  Python's \<open>round\<close> does on an exact tie).
\<close>

definition py_round :: "real \<Rightarrow> int" where
  "py_round x =
     (let f = \<lfloor>x\<rfloor>; d = x - of_int f
      in if d < 1 / 2 then f
         else if 1 / 2 < d then f + 1
         else if even f then f else f + 1)"

definition round_py :: "real \<Rightarrow> nat \<Rightarrow> real" where
  "round_py x n = of_int (py_round (x * 10 ^ n)) / 10 ^ n"

text \<open>Python's \<open>int(x)\<close> on a float: truncation towards zero.\<close>

definition py_int :: "real \<Rightarrow> int" where
  "py_int x = (if 0 \<le> x then \<lfloor>x\<rfloor> else \<lceil>x\<rceil>)"

text \<open>Decimal text of a number, as an f-string prints an int.\<close>

fun str_nat :: "nat \<Rightarrow> string" where
  "str_nat n =
     (if n < 10 then [char_of (48 + n)]
      else str_nat (n div 10) @ [char_of (48 + n mod 10)])"

declare str_nat.simps [simp del]

definition str_int :: "int \<Rightarrow> string" where
  "str_int i = (if i < 0 then ''-'' @ str_nat (nat (- i)) else str_nat (nat i))"

text \<open>
  The text of a float that lies on the 0.1 grid, as \<open>f'{x}'\<close> prints it for the
  magnitudes a trip has (\<open>400.0\<close>, \<open>0.5\<close>); exponent notation is not modelled.
\<close>

definition str_float1 :: "real \<Rightarrow> string" where
  "str_float1 x =
     (let a = \<bar>x\<bar>; whole = nat \<lfloor>a\<rfloor>; tenth = nat \<lfloor>a * 10\<rfloor> mod 10
      in (if x < 0 then ''-'' else '''') @ str_nat whole @ ''.'' @ str_nat tenth)"

text \<open>\<open>f"{n:02d}"\<close> for a non-negative int.\<close>

definition pad2 :: "nat \<Rightarrow> string" where
  "pad2 n = (if n < 10 then ''0'' @ str_nat n else str_nat n)"

section \<open>The simulator: \<open>HOSCalculator\<close> (hos_calculator.py)\<close>

subsection \<open>Class constants\<close>

named_theorems hos_consts

definition MAX_DRIVING :: real where [hos_consts]: "MAX_DRIVING = 11"
definition MAX_DUTY_WINDOW :: real where [hos_consts]: "MAX_DUTY_WINDOW = 14"
definition BREAK_AFTER_DRIVING :: real where [hos_consts]: "BREAK_AFTER_DRIVING = 8"
definition BREAK_DURATION :: real where [hos_consts]: "BREAK_DURATION = 0.5"
definition REQUIRED_REST :: real where [hos_consts]: "REQUIRED_REST = 10"
definition MAX_CYCLE :: real where [hos_consts]: "MAX_CYCLE = 70"
definition RESTART_HOURS :: real where [hos_consts]: "RESTART_HOURS = 34"
definition FUEL_INTERVAL :: real where [hos_consts]: "FUEL_INTERVAL = 1000"
definition FUEL_DURATION :: real where [hos_consts]: "FUEL_DURATION = 0.5"
definition PICKUP_DURATION :: real where [hos_consts]: "PICKUP_DURATION = 1.0"
definition DROPOFF_DURATION :: real where [hos_consts]: "DROPOFF_DURATION = 1.0"
definition PRE_TRIP_DURATION :: real where [hos_consts]: "PRE_TRIP_DURATION = 0.25"
definition POST_TRIP_DURATION :: real where [hos_consts]: "POST_TRIP_DURATION = 0.25"
definition START_HOUR :: real where [hos_consts]: "START_HOUR = 8"

subsection \<open>Events and the simulation state\<close>

text \<open>The dict built by \<open>_evt\<close>; the key \<open>miles\<close> is present only when it is passed.\<close>

record event =
  ev_status :: string
  ev_clock :: real
  ev_duration :: real
  ev_description :: string
  ev_location :: string
  ev_distance :: real
  ev_miles :: "real option"

definition evt ::
  "string \<Rightarrow> real \<Rightarrow> real \<Rightarrow> string \<Rightarrow> string \<Rightarrow> real \<Rightarrow> real option \<Rightarrow> event" where
  "evt status clock duration desc location distance miles =
     \<lparr>ev_status = status,
      ev_clock = round_py clock 2,
      ev_duration = round_py duration 2,
      ev_description = desc,
      ev_location = location,
      ev_distance = round_py distance 1,
      ev_miles = map_option (\<lambda>m. round_py m 1) miles\<rparr>"

text \<open>
  The local variables that \<open>calculate_trip\<close> threads through \<open>_drive\<close>,
  \<open>_do_on_duty\<close>, \<open>_rest\<close> and \<open>_restart\<close>, together with the event list that these
  methods append to in place. A method that does not return one of the variables leaves
  the caller's value as it was: the record field is then not updated.
\<close>

record sim_state =
  events :: "event list"
  clock :: real
  shift_start :: real
  shift_driving :: real
  driving_since_break :: real
  cycle_hours :: real
  total_distance :: real
  last_fuel_distance :: real

subsection \<open>\<open>_rest\<close> and \<open>_restart\<close>\<close>

text \<open>
  \<open>clock, shift_start, shift_driving, driving_since_break = self._rest(events, clock,
  loc, total_distance)\<close>: the call together with the assignment of its result, which is
  how every call site uses it.
\<close>

definition rest :: "sim_state \<Rightarrow> string \<Rightarrow> sim_state" where
  "rest s location =
     s\<lparr>events := events s @
          [evt ''sleeper_berth'' (clock s) REQUIRED_REST ''10-hour rest period''
             location (total_distance s) None],
       clock := clock s + REQUIRED_REST,
       shift_start := clock s + REQUIRED_REST,
       shift_driving := 0,
       driving_since_break := 0\<rparr>"

definition restart :: "sim_state \<Rightarrow> string \<Rightarrow> sim_state" where
  "restart s location =
     s\<lparr>events := events s @
          [evt ''sleeper_berth'' (clock s) RESTART_HOURS
             ''34-hour restart (70-hour cycle limit)'' location (total_distance s) None],
       clock := clock s + RESTART_HOURS,
       cycle_hours := 0,
       shift_start := clock s + RESTART_HOURS,
       shift_driving := 0,
       driving_since_break := 0\<rparr>"

subsection \<open>\<open>_loc\<close>\<close>

text \<open>The arrow of the source's label is U+2192, three bytes in UTF-8.\<close>

definition arrow :: string where
  "arrow = [char_of (226::nat), char_of (134::nat), char_of (146::nat)]"

definition loc :: "string \<Rightarrow> string \<Rightarrow> real \<Rightarrow> real \<Rightarrow> string" where
  "loc from_loc to_loc total' remaining =
     (if total' \<le> 0 then from_loc
      else
        let progress = (total' - remaining) / total'
        in if progress < 0.1 then ''Near '' @ from_loc
           else if progress > 0.9 then ''Near '' @ to_loc
           else ''En route ('' @ str_int (py_int (progress * 100)) @ ''% '' @ from_loc @
                '' '' @ arrow @ '' '' @ to_loc @ '')'')"

subsection \<open>\<open>_do_on_duty\<close>\<close>

definition do_on_duty :: "sim_state \<Rightarrow> real \<Rightarrow> string \<Rightarrow> string \<Rightarrow> sim_state" where
  "do_on_duty s duration description location =
     (let s1 = (if (clock s - shift_start s) + duration > MAX_DUTY_WINDOW
                then rest s location else s);
          s2 = (if cycle_hours s1 + duration > MAX_CYCLE
                then restart s1 location else s1);
          s3 = s2\<lparr>events := events s2 @
                     [evt ''on_duty_not_driving'' (clock s2) duration description
                        location (total_distance s2) None],
                  clock := clock s2 + duration,
                  cycle_hours := cycle_hours s2 + duration\<rparr>
      in if duration \<ge> BREAK_DURATION then s3\<lparr>driving_since_break := 0\<rparr> else s3)"

subsection \<open>\<open>_drive\<close>\<close>

text \<open>The four checks at the head of the loop body, in the source's order.\<close>

definition check_cycle :: "real \<Rightarrow> string \<Rightarrow> string \<Rightarrow> sim_state \<Rightarrow> real \<Rightarrow> sim_state" where
  "check_cycle segment_miles from_loc to_loc s remaining =
     (if cycle_hours s \<ge> MAX_CYCLE
      then restart s (loc from_loc to_loc segment_miles remaining) else s)"

definition check_shift :: "real \<Rightarrow> string \<Rightarrow> string \<Rightarrow> sim_state \<Rightarrow> real \<Rightarrow> sim_state" where
  "check_shift segment_miles from_loc to_loc s remaining =
     (let shift_elapsed = clock s - shift_start s
      in if shift_elapsed \<ge> MAX_DUTY_WINDOW \<or> shift_driving s \<ge> MAX_DRIVING
         then rest s (loc from_loc to_loc segment_miles remaining) else s)"

definition take_break :: "sim_state \<Rightarrow> string \<Rightarrow> sim_state" where
  "take_break s location =
     s\<lparr>events := events s @
          [evt ''off_duty'' (clock s) BREAK_DURATION
             ''30-minute break (8-hr driving limit)'' location (total_distance s) None],
       clock := clock s + BREAK_DURATION,
       driving_since_break := 0\<rparr>"

definition check_break :: "real \<Rightarrow> string \<Rightarrow> string \<Rightarrow> sim_state \<Rightarrow> real \<Rightarrow> sim_state" where
  "check_break segment_miles from_loc to_loc s remaining =
     (if driving_since_break s \<ge> BREAK_AFTER_DRIVING then
        let shift_elapsed = clock s - shift_start s;
            l = loc from_loc to_loc segment_miles remaining
        in if shift_elapsed + BREAK_DURATION < MAX_DUTY_WINDOW \<and>
              shift_driving s < MAX_DRIVING
           then take_break s l
           else rest s l
      else s)"

definition fuel_stop :: "sim_state \<Rightarrow> string \<Rightarrow> sim_state" where
  "fuel_stop s location =
     s\<lparr>events := events s @
          [evt ''on_duty_not_driving'' (clock s) FUEL_DURATION ''Fueling stop''
             location (total_distance s) None],
       clock := clock s + FUEL_DURATION,
       cycle_hours := cycle_hours s + FUEL_DURATION,
       last_fuel_distance := total_distance s,
       driving_since_break := 0\<rparr>"

definition check_fuel :: "real \<Rightarrow> string \<Rightarrow> string \<Rightarrow> sim_state \<Rightarrow> real \<Rightarrow> sim_state" where
  "check_fuel segment_miles from_loc to_loc s remaining =
     (if total_distance s - last_fuel_distance s \<ge> FUEL_INTERVAL then
        let l = loc from_loc to_loc segment_miles remaining;
            shift_elapsed = clock s - shift_start s;
            s1 = (if shift_elapsed + FUEL_DURATION > MAX_DUTY_WINDOW then rest s l else s)
        in fuel_stop s1 l
      else s)"

text \<open>The state in which the loop body reaches \<open>CALCULATE DRIVE TIME\<close>.\<close>

definition pre_drive :: "real \<Rightarrow> string \<Rightarrow> string \<Rightarrow> sim_state \<Rightarrow> real \<Rightarrow> sim_state" where
  "pre_drive segment_miles from_loc to_loc s remaining =
     (let s1 = check_cycle segment_miles from_loc to_loc s remaining;
          s2 = check_shift segment_miles from_loc to_loc s1 remaining;
          s3 = check_break segment_miles from_loc to_loc s2 remaining
      in check_fuel segment_miles from_loc to_loc s3 remaining)"

definition can_drive :: "real \<Rightarrow> sim_state \<Rightarrow> real \<Rightarrow> real" where
  "can_drive avg_speed s remaining =
     (let shift_elapsed = clock s - shift_start s;
          t_break = max 0.01 (BREAK_AFTER_DRIVING - driving_since_break s);
          t_11 = max 0.01 (MAX_DRIVING - shift_driving s);
          t_14 = max 0.01 (MAX_DUTY_WINDOW - shift_elapsed);
          t_cycle = max 0.01 (MAX_CYCLE - cycle_hours s);
          t_fuel = (if avg_speed > 0
                    then max 0.01 ((FUEL_INTERVAL - (total_distance s - last_fuel_distance s))
                                   / avg_speed)
                    else 999);
          t_finish = (if avg_speed > 0 then remaining / avg_speed else 0)
      in max 0.01 (min t_break (min t_11 (min t_14 (min t_cycle (min t_fuel t_finish))))))"

text \<open>The driving event and the six updates that follow it.\<close>

definition drive_increment ::
  "real \<Rightarrow> string \<Rightarrow> string \<Rightarrow> sim_state \<Rightarrow> real \<Rightarrow> real \<Rightarrow> real \<Rightarrow> sim_state" where
  "drive_increment segment_miles from_loc to_loc s remaining drive_time drive_miles =
     s\<lparr>events := events s @
          [evt ''driving'' (clock s) drive_time
             (''Driving '' @ str_float1 drive_miles @ '' miles'')
             (loc from_loc to_loc segment_miles remaining) (total_distance s)
             (Some drive_miles)],
       clock := clock s + drive_time,
       shift_driving := shift_driving s + drive_time,
       driving_since_break := driving_since_break s + drive_time,
       cycle_hours := cycle_hours s + drive_time,
       total_distance := total_distance s + drive_miles\<rparr>"

text \<open>
  One pass through the body of \<open>while remaining > 0.5\<close>: it leaves through
  \<open>if drive_time < 0.01: break\<close>, through \<open>if remaining < 0.5: remaining = 0; break\<close>,
  or it falls through to the loop test with the new \<open>remaining\<close>.
\<close>

datatype drive_step =
  Safety_stop sim_state
  | Segment_done sim_state
  | Keep_driving sim_state real

definition drive_iter ::
  "real \<Rightarrow> real \<Rightarrow> string \<Rightarrow> string \<Rightarrow> sim_state \<Rightarrow> real \<Rightarrow> drive_step" where
  "drive_iter segment_miles avg_speed from_loc to_loc s remaining =
     (let s4 = pre_drive segment_miles from_loc to_loc s remaining;
          cd = can_drive avg_speed s4 remaining;
          drive_miles = min (cd * avg_speed) remaining;
          drive_time = (if avg_speed > 0 then drive_miles / avg_speed else 0)
      in if drive_time < 0.01 then Safety_stop s4
         else
           let drive_time = round_py drive_time 2;
               drive_miles = round_py drive_miles 1;
               s5 = drive_increment segment_miles from_loc to_loc s4 remaining
                      drive_time drive_miles;
               remaining = remaining - drive_miles
           in if remaining < 0.5 then Segment_done s5 else Keep_driving s5 remaining)"

text \<open>
  The loop. It need not end (a speed so low that every increment rounds to 0.0 miles
  never reduces \<open>remaining\<close>), so it runs on fuel: \<open>None\<close> is a loop that has not
  returned within the given number of passes.
\<close>

fun drive_loop ::
  "nat \<Rightarrow> real \<Rightarrow> real \<Rightarrow> string \<Rightarrow> string \<Rightarrow> sim_state \<Rightarrow> real \<Rightarrow> sim_state option" where
  "drive_loop 0 segment_miles avg_speed from_loc to_loc s remaining =
     (if remaining > 0.5 then None else Some s)"
| "drive_loop (Suc n) segment_miles avg_speed from_loc to_loc s remaining =
     (if remaining > 0.5 then
        (case drive_iter segment_miles avg_speed from_loc to_loc s remaining of
           Safety_stop s' \<Rightarrow> Some s'
         | Segment_done s' \<Rightarrow> Some s'
         | Keep_driving s' remaining' \<Rightarrow>
             drive_loop n segment_miles avg_speed from_loc to_loc s' remaining')
      else Some s)"

definition drive ::
  "nat \<Rightarrow> sim_state \<Rightarrow> real \<Rightarrow> real \<Rightarrow> string \<Rightarrow> string \<Rightarrow> sim_state option" where
  "drive n s segment_miles avg_speed from_loc to_loc =
     drive_loop n segment_miles avg_speed from_loc to_loc s segment_miles"

text \<open>
  The states in which \<open>_drive\<close> reaches its \<open>events.append\<close> of a driving event, in
  order: an observer of the same loop, for stating what holds when driving starts.
\<close>

fun driving_starts ::
  "nat \<Rightarrow> real \<Rightarrow> real \<Rightarrow> string \<Rightarrow> string \<Rightarrow> sim_state \<Rightarrow> real \<Rightarrow> sim_state list" where
  "driving_starts 0 segment_miles avg_speed from_loc to_loc s remaining = []"
| "driving_starts (Suc n) segment_miles avg_speed from_loc to_loc s remaining =
     (if remaining > 0.5 then
        (case drive_iter segment_miles avg_speed from_loc to_loc s remaining of
           Safety_stop s' \<Rightarrow> []
         | Segment_done s' \<Rightarrow> [pre_drive segment_miles from_loc to_loc s remaining]
         | Keep_driving s' remaining' \<Rightarrow>
             pre_drive segment_miles from_loc to_loc s remaining #
             driving_starts n segment_miles avg_speed from_loc to_loc s' remaining')
      else [])"

subsection \<open>\<open>__init__\<close> and \<open>calculate_trip\<close>\<close>

record hos_calculator =
  initial_cycle :: real

definition HOSCalculator :: "real \<Rightarrow> hos_calculator" where
  "HOSCalculator current_cycle_used = \<lparr>initial_cycle = min current_cycle_used MAX_CYCLE\<rparr>"

record trip_result =
  res_events :: "event list"
  res_total_distance :: real
  final_cycle_hours :: real

text \<open>Lines 44 to 72: the initial state, the restart if the cycle is used up, the pre-trip inspection.\<close>

definition trip_begin :: "hos_calculator \<Rightarrow> string \<Rightarrow> sim_state" where
  "trip_begin self current_loc =
     (let s0 = \<lparr>events = [], clock = START_HOUR, shift_start = START_HOUR,
                shift_driving = 0, driving_since_break = 0,
                cycle_hours = initial_cycle self, total_distance = 0,
                last_fuel_distance = 0\<rparr>;
          s1 = (if cycle_hours s0 \<ge> MAX_CYCLE then
                  s0\<lparr>events := events s0 @
                        [evt ''sleeper_berth'' (clock s0) RESTART_HOURS
                           ''34-hour restart (70-hour cycle limit reached)''
                           current_loc (total_distance s0) None],
                     clock := clock s0 + RESTART_HOURS,
                     cycle_hours := 0,
                     shift_start := clock s0 + RESTART_HOURS\<rparr>
                else s0)
      in s1\<lparr>events := events s1 @
              [evt ''on_duty_not_driving'' (clock s1) PRE_TRIP_DURATION
                 ''Pre-trip inspection'' current_loc (total_distance s1) None],
            clock := clock s1 + PRE_TRIP_DURATION,
            cycle_hours := cycle_hours s1 + PRE_TRIP_DURATION\<rparr>)"

text \<open>\<open>if leg_miles > 0.5: speed = ...; ... = self._drive(...)\<close>, for either leg.\<close>

definition drive_leg ::
  "nat \<Rightarrow> sim_state \<Rightarrow> real \<Rightarrow> real \<Rightarrow> string \<Rightarrow> string \<Rightarrow> sim_state option" where
  "drive_leg n s leg_miles leg_hours from_loc to_loc =
     (if leg_miles > 0.5 then
        let speed = (if leg_hours > 0 then leg_miles / leg_hours else 55)
        in drive n s leg_miles speed from_loc to_loc
      else Some s)"

definition post_trip :: "sim_state \<Rightarrow> string \<Rightarrow> sim_state" where
  "post_trip s dropoff_loc =
     s\<lparr>events := events s @
          [evt ''on_duty_not_driving'' (clock s) POST_TRIP_DURATION
             ''Post-trip inspection'' dropoff_loc (total_distance s) None],
       clock := clock s + POST_TRIP_DURATION,
       cycle_hours := cycle_hours s + POST_TRIP_DURATION\<rparr>"

text \<open>The state of the local variables at the \<open>return\<close> of \<open>calculate_trip\<close>.\<close>

definition trip_state ::
  "nat \<Rightarrow> hos_calculator \<Rightarrow> real \<Rightarrow> real \<Rightarrow> real \<Rightarrow> real \<Rightarrow> string \<Rightarrow> string \<Rightarrow> string
     \<Rightarrow> sim_state option" where
  "trip_state n self leg1_miles leg1_hours leg2_miles leg2_hours
       current_loc pickup_loc dropoff_loc =
     (case drive_leg n (trip_begin self current_loc) leg1_miles leg1_hours
             current_loc pickup_loc of
        None \<Rightarrow> None
      | Some s2 \<Rightarrow>
          (case drive_leg n (do_on_duty s2 PICKUP_DURATION ''Pickup / Loading'' pickup_loc)
                  leg2_miles leg2_hours pickup_loc dropoff_loc of
             None \<Rightarrow> None
           | Some s4 \<Rightarrow>
               Some (post_trip
                       (do_on_duty s4 DROPOFF_DURATION ''Dropoff / Unloading'' dropoff_loc)
                       dropoff_loc)))"

definition calculate_trip ::
  "nat \<Rightarrow> hos_calculator \<Rightarrow> real \<Rightarrow> real \<Rightarrow> real \<Rightarrow> real \<Rightarrow> string \<Rightarrow> string \<Rightarrow> string
     \<Rightarrow> trip_result option" where
  "calculate_trip n self leg1_miles leg1_hours leg2_miles leg2_hours
       current_loc pickup_loc dropoff_loc =
     map_option
       (\<lambda>s. \<lparr>res_events = events s,
             res_total_distance = round_py (total_distance s) 1,
             final_cycle_hours = round_py (cycle_hours s) 2\<rparr>)
       (trip_state n self leg1_miles leg1_hours leg2_miles leg2_hours
          current_loc pickup_loc dropoff_loc)"

section \<open>The partitioner: \<open>generate_daily_logs\<close> (views.py)\<close>

record activity =
  status :: string
  start_hour :: real
  end_hour :: real
  duration :: real
  description :: string
  location :: string

record remark =
  rm_time :: string
  rm_status :: string
  rm_text :: string
  rm_location :: string

text \<open>The dict \<open>totals\<close>, with its four keys in the order the source inserts them.\<close>

record totals_rec =
  off_duty :: real
  sleeper_berth :: real
  driving :: real
  on_duty_not_driving :: real

text \<open>
  A calendar date is its day number (\<open>date.toordinal()\<close>), so that
  \<open>start_date + timedelta(days=day_idx)\<close> is an addition; the text that
  \<open>strftime\<close> makes of it is not modelled.
\<close>

record daily_log =
  day :: nat
  date :: int
  total_miles :: real
  activities :: "activity list"
  remarks :: "remark list"
  totals :: totals_rec

subsection \<open>\<open>_fill_gaps\<close>\<close>

definition off_duty_block :: "real \<Rightarrow> real \<Rightarrow> real \<Rightarrow> activity" where
  "off_duty_block s e d =
     \<lparr>status = ''off_duty'', start_hour = s, end_hour = e, duration = d,
      description = ''Off Duty'', location = []\<rparr>"

text \<open>The loop \<open>for act in activities\<close>, with \<open>filled\<close> and \<open>current\<close> as accumulators.\<close>

fun fill_walk :: "activity list \<Rightarrow> activity list \<Rightarrow> real \<Rightarrow> activity list \<times> real" where
  "fill_walk [] filled current = (filled, current)"
| "fill_walk (act # acts) filled current =
     (let filled1 =
            (if start_hour act > current + 0.01 then
               let gap = round_py (start_hour act - current) 2
               in filled @ [off_duty_block (round_py current 2)
                              (round_py (start_hour act) 2) gap]
             else filled)
      in fill_walk acts (filled1 @ [act]) (end_hour act))"

definition fill_gaps :: "activity list \<Rightarrow> activity list" where
  "fill_gaps acts =
     (if acts = [] then [off_duty_block 0 24 24]
      else
        case fill_walk (sort_key start_hour acts) [] 0 of
          (filled, current) \<Rightarrow>
            if current < 23.99 then
              let gap = round_py (24 - current) 2
              in filled @ [off_duty_block (round_py current 2) 24 gap]
            else filled)"

subsection \<open>\<open>_calc_totals\<close>\<close>

definition add_total :: "totals_rec \<Rightarrow> activity \<Rightarrow> totals_rec" where
  "add_total t act =
     (let s = status act; d = duration act
      in if s = ''off_duty'' then t\<lparr>off_duty := off_duty t + d\<rparr>
         else if s = ''sleeper_berth'' then t\<lparr>sleeper_berth := sleeper_berth t + d\<rparr>
         else if s = ''driving'' then t\<lparr>driving := driving t + d\<rparr>
         else if s = ''on_duty_not_driving''
           then t\<lparr>on_duty_not_driving := on_duty_not_driving t + d\<rparr>
         else t)"

definition totals_sum :: "totals_rec \<Rightarrow> real" where
  "totals_sum t = off_duty t + sleeper_berth t + driving t + on_duty_not_driving t"

definition calc_totals :: "activity list \<Rightarrow> totals_rec" where
  "calc_totals acts =
     (let t0 = \<lparr>off_duty = 0, sleeper_berth = 0, driving = 0, on_duty_not_driving = 0\<rparr>;
          t1 = foldl add_total t0 acts;
          t2 = \<lparr>off_duty = round_py (off_duty t1) 2,
                sleeper_berth = round_py (sleeper_berth t1) 2,
                driving = round_py (driving t1) 2,
                on_duty_not_driving = round_py (on_duty_not_driving t1) 2\<rparr>;
          total = totals_sum t2
      in if \<bar>total - 24\<bar> > 0.01
         then t2\<lparr>off_duty := round_py (off_duty t2 + (24 - total)) 2\<rparr>
         else t2)"

subsection \<open>\<open>generate_daily_logs\<close>\<close>

text \<open>
  The loop \<open>for event in events\<close> of one day, with \<open>day_activities\<close>, \<open>day_miles\<close>
  and \<open>day_remarks\<close> as accumulators.
\<close>

fun scan_events ::
  "real \<Rightarrow> real \<Rightarrow> event list \<Rightarrow> activity list \<Rightarrow> real \<Rightarrow> remark list
     \<Rightarrow> activity list \<times> real \<times> remark list" where
  "scan_events day_start day_end [] day_activities day_miles day_remarks =
     (day_activities, day_miles, day_remarks)"
| "scan_events day_start day_end (event # rest_events) day_activities day_miles day_remarks =
     (let ev_start = ev_clock event;
          ev_end = ev_clock event + ev_duration event
      in if ev_end \<le> day_start \<or> ev_start \<ge> day_end
         then scan_events day_start day_end rest_events day_activities day_miles day_remarks
         else
           let clipped_start = max ev_start day_start - day_start;
               clipped_end = min ev_end day_end - day_start;
               clipped_duration = clipped_end - clipped_start
           in if clipped_duration < 0.01
              then scan_events day_start day_end rest_events
                     day_activities day_miles day_remarks
              else
                let act = \<lparr>status = ev_status event,
                           start_hour = round_py clipped_start 2,
                           end_hour = round_py clipped_end 2,
                           duration = round_py clipped_duration 2,
                           description = ev_description event,
                           location = ev_location event\<rparr>;
                    miles1 = (case ev_miles event of
                                Some m \<Rightarrow>
                                  if m \<noteq> 0 \<and> ev_start \<ge> day_start
                                  then day_miles + m else day_miles
                              | None \<Rightarrow> day_miles);
                    hour = py_int clipped_start;
                    minute = py_int ((clipped_start - of_int \<lfloor>clipped_start\<rfloor>) * 60);
                    rmk = \<lparr>rm_time = pad2 (nat hour) @ '':'' @ pad2 (nat minute),
                           rm_status = ev_status event,
                           rm_text = ev_description event,
                           rm_location = ev_location event\<rparr>
                in scan_events day_start day_end rest_events
                     (day_activities @ [act]) miles1 (day_remarks @ [rmk]))"

text \<open>The body of \<open>for day_idx in range(num_days)\<close>.\<close>

definition day_log :: "event list \<Rightarrow> int \<Rightarrow> nat \<Rightarrow> daily_log" where
  "day_log evs start_date day_idx =
     (let day_start = real day_idx * 24;
          day_end = (real day_idx + 1) * 24
      in case scan_events day_start day_end evs [] 0 [] of
           (day_activities, day_miles, day_remarks) \<Rightarrow>
             let filled = fill_gaps day_activities
             in \<lparr>day = day_idx + 1,
                 date = start_date + int day_idx,
                 total_miles = round_py day_miles 1,
                 activities = filled,
                 remarks = day_remarks,
                 totals = calc_totals filled\<rparr>)"

definition generate_daily_logs :: "event list \<Rightarrow> int \<Rightarrow> daily_log list" where
  "generate_daily_logs evs start_date =
     (if evs = [] then []
      else
        let last_event = last evs;
            total_hours = ev_clock last_event + ev_duration last_event;
            num_days = max 1 \<lceil>total_hours / 24\<rceil>
        in map (day_log evs start_date) [0..<nat num_days])"

section \<open>Vocabulary of the properties\<close>

text \<open>A number with at most \<open>n\<close> decimals: a value that \<open>round(x, n)\<close> leaves as it is.\<close>

definition on_grid :: "nat \<Rightarrow> real \<Rightarrow> bool" where
  "on_grid n x = (of_int \<lfloor>x * 10 ^ n\<rfloor> = x * 10 ^ n)"

text \<open>
  The two inequalities of the data model's invariant, with the sign of
  \<open>driving_since_break\<close> that makes them inductive.
\<close>

definition sim_inv :: "sim_state \<Rightarrow> bool" where
  "sim_inv s =
     (0 \<le> driving_since_break s \<and>
      driving_since_break s \<le> shift_driving s \<and>
      shift_driving s \<le> clock s - shift_start s)"


text \<open>
  The states in which driving starts during a whole trip: those of leg 1, then those of
  leg 2, each leg driven as \<open>calculate_trip\<close> drives it.
\<close>

definition leg_driving_starts ::
  "nat \<Rightarrow> sim_state \<Rightarrow> real \<Rightarrow> real \<Rightarrow> string \<Rightarrow> string \<Rightarrow> sim_state list" where
  "leg_driving_starts n s leg_miles leg_hours from_loc to_loc =
     (if leg_miles > 0.5 then
        let speed = (if leg_hours > 0 then leg_miles / leg_hours else 55)
        in driving_starts n leg_miles speed from_loc to_loc s leg_miles
      else [])"

definition trip_driving_starts ::
  "nat \<Rightarrow> hos_calculator \<Rightarrow> real \<Rightarrow> real \<Rightarrow> real \<Rightarrow> real \<Rightarrow> string \<Rightarrow> string \<Rightarrow> string
     \<Rightarrow> sim_state list" where
  "trip_driving_starts n self leg1_miles leg1_hours leg2_miles leg2_hours
       current_loc pickup_loc dropoff_loc =
     leg_driving_starts n (trip_begin self current_loc) leg1_miles leg1_hours
       current_loc pickup_loc @
     (case drive_leg n (trip_begin self current_loc) leg1_miles leg1_hours
             current_loc pickup_loc of
        None \<Rightarrow> []
      | Some s2 \<Rightarrow>
          leg_driving_starts n
            (do_on_duty s2 PICKUP_DURATION ''Pickup / Loading'' pickup_loc)
            leg2_miles leg2_hours pickup_loc dropoff_loc)"


definition known_status :: "string \<Rightarrow> bool" where
  "known_status s =
     (s = ''off_duty'' \<or> s = ''sleeper_berth'' \<or> s = ''driving'' \<or>
      s = ''on_duty_not_driving'')"



text \<open>
  A run of activities without gaps from hour \<open>a\<close> to hour \<open>z\<close>, each with the
  duration its two ends give.
\<close>

fun gapless :: "real \<Rightarrow> activity list \<Rightarrow> real \<Rightarrow> bool" where
  "gapless a [] z = (a = z)"
| "gapless a (x # xs) z =
     (start_hour x = a \<and> a < end_hour x \<and> duration x = end_hour x - a \<and>
      known_status (status x) \<and> on_grid 2 a \<and> gapless (end_hour x) xs z)"

section \<open>Rounding\<close>

lemma py_round_of_int: "py_round (of_int k) = k"
  by (simp add: py_round_def)

lemma py_round_floor: "\<lfloor>x\<rfloor> \<le> py_round x" "py_round x \<le> \<lfloor>x\<rfloor> + 1"
  unfolding py_round_def Let_def by auto

lemma py_round_mono:
  assumes "x \<le> y"
  shows "py_round x \<le> py_round y"
proof (cases "\<lfloor>x\<rfloor> = \<lfloor>y\<rfloor>")
  case True
  with assms show ?thesis
    unfolding py_round_def Let_def by (auto; linarith)
next
  case False
  with assms have "\<lfloor>x\<rfloor> + 1 \<le> \<lfloor>y\<rfloor>"
    using floor_mono [of x y] by linarith
  with py_round_floor(2) [of x] py_round_floor(1) [of y] show ?thesis
    by linarith
qed

lemma on_gridI: "x * 10 ^ n = of_int k \<Longrightarrow> on_grid n x"
  by (simp add: on_grid_def)

lemma on_gridE: "on_grid n x \<Longrightarrow> \<exists>k. x * 10 ^ n = of_int k"
  unfolding on_grid_def by metis

lemma on_grid_round_py: "on_grid n (round_py x n)"
  by (rule on_gridI [where k = "py_round (x * 10 ^ n)"]) (simp add: round_py_def)

lemma round_py_on_grid:
  assumes "on_grid n x"
  shows "round_py x n = x"
proof -
  from on_gridE [OF assms] obtain k where k: "x * 10 ^ n = of_int k" ..
  have "round_py x n = of_int k / 10 ^ n"
    by (simp add: round_py_def k py_round_of_int)
  also have "\<dots> = x"
    using k by (simp add: field_simps)
  finally show ?thesis .
qed

lemma round_py_mono: "x \<le> y \<Longrightarrow> round_py x n \<le> round_py y n"
  unfolding round_py_def
  by (simp add: py_round_mono divide_right_mono)

lemma on_grid_add:
  assumes "on_grid n x" "on_grid n y"
  shows "on_grid n (x + y)"
proof -
  from on_gridE [OF assms(1)] obtain a where a: "x * 10 ^ n = of_int a" ..
  from on_gridE [OF assms(2)] obtain b where b: "y * 10 ^ n = of_int b" ..
  show ?thesis
    by (rule on_gridI [where k = "a + b"]) (simp add: distrib_right a b)
qed

lemma on_grid_diff:
  assumes "on_grid n x" "on_grid n y"
  shows "on_grid n (x - y)"
proof -
  from on_gridE [OF assms(1)] obtain a where a: "x * 10 ^ n = of_int a" ..
  from on_gridE [OF assms(2)] obtain b where b: "y * 10 ^ n = of_int b" ..
  show ?thesis
    by (rule on_gridI [where k = "a - b"]) (simp add: left_diff_distrib a b)
qed

lemma on_grid_of_int: "on_grid n (of_int k)"
  by (rule on_gridI [where k = "k * 10 ^ n"]) simp

lemma on_grid_numeral: "on_grid n (numeral k)" "on_grid n 0" "on_grid n 1"
  using on_grid_of_int [of n "numeral k"] on_grid_of_int [of n 0] on_grid_of_int [of n 1]
  by simp_all

lemma round_py_ge: "on_grid n c \<Longrightarrow> c \<le> x \<Longrightarrow> c \<le> round_py x n"
  using round_py_mono [of c x n] by (simp add: round_py_on_grid)

lemma round_py_le: "on_grid n c \<Longrightarrow> x \<le> c \<Longrightarrow> round_py x n \<le> c"
  using round_py_mono [of x c n] by (simp add: round_py_on_grid)

lemma round_py_consts:
  "round_py 10 2 = 10" "round_py 34 2 = 34" "round_py (1 / 2) 2 = 1 / 2"
  "round_py (1 / 4) 2 = 1 / 4" "round_py 1 2 = 1"
  by (simp_all add: round_py_def py_round_def)

section \<open>The constructor's clamp\<close>

text \<open>
  Claim C6, as the code has it: the constructor stores \<open>min(current_cycle_used, 70)\<close>.
  The stored initial cycle is therefore at most 70 for every input, and it lies within
  [0, 70] whenever the input is not negative; a negative input is stored unchanged.
\<close>

theorem initial_cycle_clamped_above:
  "initial_cycle (HOSCalculator c) = min c 70 \<and>
   initial_cycle (HOSCalculator c) \<le> 70 \<and>
   (0 \<le> c \<longrightarrow> 0 \<le> initial_cycle (HOSCalculator c))"
  by (simp add: HOSCalculator_def MAX_CYCLE_def)

theorem initial_cycle_clamped_above_witness:
  "(0::real) \<le> 80 \<and> initial_cycle (HOSCalculator 80) = 70 \<and>
   0 \<le> initial_cycle (HOSCalculator 80)"
  using initial_cycle_clamped_above [of 80] by simp

text \<open>
  The claim as stated, that the initial cycle hours lie within [0, 70] for every input,
  fails below zero: an input of -5 hours is stored as -5.
\<close>

theorem initial_cycle_negative_counterexample:
  "initial_cycle (HOSCalculator (- 5)) = - 5 \<and>
   \<not> (0 \<le> initial_cycle (HOSCalculator (- 5)) \<and> initial_cycle (HOSCalculator (- 5)) \<le> 70)"
  by (simp add: HOSCalculator_def MAX_CYCLE_def)

section \<open>The rest procedure\<close>

text \<open>
  Claim C8: \<open>_rest\<close> appends exactly one event, a 10-hour \<open>sleeper_berth\<close> at the
  given location whose clock is the current clock (rounded to two decimals by \<open>_evt\<close>,
  which changes nothing when the clock has two decimals); the clock advances by exactly
  10 hours, \<open>shift_start\<close> becomes the new clock, \<open>shift_driving\<close> and
  \<open>driving_since_break\<close> become 0, and \<open>cycle_hours\<close>, \<open>total_distance\<close> and
  \<open>last_fuel_distance\<close> keep their values.
\<close>

theorem rest_effect:
  "events (rest s l) = events s @
     [\<lparr>ev_status = ''sleeper_berth'', ev_clock = round_py (clock s) 2, ev_duration = 10,
       ev_description = ''10-hour rest period'', ev_location = l,
       ev_distance = round_py (total_distance s) 1, ev_miles = None\<rparr>] \<and>
   (on_grid 2 (clock s) \<longrightarrow> ev_clock (last (events (rest s l))) = clock s) \<and>
   clock (rest s l) = clock s + 10 \<and>
   shift_start (rest s l) = clock (rest s l) \<and>
   shift_driving (rest s l) = 0 \<and>
   driving_since_break (rest s l) = 0 \<and>
   cycle_hours (rest s l) = cycle_hours s \<and>
   total_distance (rest s l) = total_distance s \<and>
   last_fuel_distance (rest s l) = last_fuel_distance s"
  by (simp add: rest_def evt_def REQUIRED_REST_def round_py_consts round_py_on_grid)

theorem rest_effect_witness:
  "on_grid 2 (clock (trip_begin (HOSCalculator 0) ''A'')) \<and>
   ev_clock (last (events (rest (trip_begin (HOSCalculator 0) ''A'') ''A''))) = 8.25 \<and>
   clock (rest (trip_begin (HOSCalculator 0) ''A'') ''A'') = 18.25"
proof -
  have c: "clock (trip_begin (HOSCalculator 0) ''A'') = 8.25"
    by (simp add: trip_begin_def HOSCalculator_def hos_consts Let_def)
  have g: "on_grid 2 (clock (trip_begin (HOSCalculator 0) ''A''))"
    by (simp add: c on_grid_def)
  from rest_effect [of "trip_begin (HOSCalculator 0) ''A''" "''A''"]
  have "on_grid 2 (clock (trip_begin (HOSCalculator 0) ''A'')) \<longrightarrow>
        ev_clock (last (events (rest (trip_begin (HOSCalculator 0) ''A'') ''A''))) =
        clock (trip_begin (HOSCalculator 0) ''A'')"
    and "clock (rest (trip_begin (HOSCalculator 0) ''A'') ''A'') =
        clock (trip_begin (HOSCalculator 0) ''A'') + 10"
    by blast+
  with g show ?thesis
    unfolding c by simp
qed

section \<open>The on-duty procedure\<close>

text \<open>
  Claim C5: \<open>_do_on_duty\<close> runs the 10-hour rest exactly when
  \<open>(clock - shift_start) + duration > 14\<close>, and runs the 34-hour restart exactly when
  \<open>cycle_hours + duration > 70\<close> for the cycle hours the procedure was entered with
  (the rest does not change them). The events it appends are the rest (if any), then the
  restart (if any), then the single on-duty event; when both conditions hold, the rest
  at the entry clock and the restart at that clock plus 10 stand back to back before the
  on-duty event, which starts 44 hours after the entry clock.
\<close>

theorem do_on_duty_events:
  "events (do_on_duty s d desc l) =
     (let over_window = (clock s - shift_start s) + d > 14;
          over_cycle = cycle_hours s + d > 70
      in events s @
         (if over_window
          then [evt ''sleeper_berth'' (clock s) 10 ''10-hour rest period'' l
                  (total_distance s) None]
          else []) @
         (if over_cycle
          then [evt ''sleeper_berth'' (clock s + (if over_window then 10 else 0)) 34
                  ''34-hour restart (70-hour cycle limit)'' l (total_distance s) None]
          else []) @
         [evt ''on_duty_not_driving''
            (clock s + (if over_window then 10 else 0) + (if over_cycle then 34 else 0))
            d desc l (total_distance s) None])"
  by (simp add: do_on_duty_def rest_def restart_def Let_def hos_consts)

section \<open>The final cycle hours\<close>

lemma do_on_duty_cycle:
  "0 \<le> d \<Longrightarrow> d \<le> 70 \<Longrightarrow> cycle_hours (do_on_duty s d desc l) \<le> 70"
  by (simp add: do_on_duty_def rest_def restart_def Let_def hos_consts)

lemma trip_state_cycle:
  assumes "trip_state n self l1m l1h l2m l2h a b c = Some s"
  shows "cycle_hours s \<le> 70.25"
proof -
  from assms obtain s4 where
    s: "s = post_trip (do_on_duty s4 DROPOFF_DURATION ''Dropoff / Unloading'' c) c"
    by (auto simp: trip_state_def split: option.splits)
  have "cycle_hours (do_on_duty s4 DROPOFF_DURATION ''Dropoff / Unloading'' c) \<le> 70"
    by (rule do_on_duty_cycle) (simp_all add: hos_consts)
  then show ?thesis
    by (simp add: s post_trip_def hos_consts)
qed

lemma short_trip_result:
  "map_option final_cycle_hours
     (calculate_trip 0 (HOSCalculator 67.75) 0 0 0 0 ''A'' ''B'' ''C'') = Some 70.25"
  by (simp add: calculate_trip_def trip_state_def drive_leg_def trip_begin_def post_trip_def
      do_on_duty_def HOSCalculator_def hos_consts Let_def round_py_def py_round_def)

text \<open>
  Claim C9: the returned \<open>final_cycle_hours\<close> is not capped at 70. With 67.75 cycle
  hours used and no driving (both legs of 0 miles), the pre-trip inspection, the pickup
  and the dropoff bring the cycle to exactly 70 without a restart, and the post-trip
  inspection, which has no cycle check, makes the result 70.25. For every input on which
  \<open>calculate_trip\<close> returns, the result is at most 70.25: the dropoff leaves at most
  70 cycle hours, and the post-trip inspection adds 0.25.
\<close>

theorem final_cycle_hours_bound:
  "map_option final_cycle_hours
     (calculate_trip 0 (HOSCalculator 67.75) 0 0 0 0 ''A'' ''B'' ''C'') = Some 70.25 \<and>
   (\<forall>n self l1m l1h l2m l2h a b c r.
      calculate_trip n self l1m l1h l2m l2h a b c = Some r \<longrightarrow>
      final_cycle_hours r \<le> 70.25)"
proof (intro conjI allI impI)
  show "map_option final_cycle_hours
       (calculate_trip 0 (HOSCalculator 67.75) 0 0 0 0 ''A'' ''B'' ''C'') = Some 70.25"
    by (rule short_trip_result)
next
  fix n self l1m l1h l2m l2h a b c r
  assume "calculate_trip n self l1m l1h l2m l2h a b c = Some r"
  then obtain s where s: "trip_state n self l1m l1h l2m l2h a b c = Some s"
    and r: "final_cycle_hours r = round_py (cycle_hours s) 2"
    by (auto simp: calculate_trip_def)
  have "on_grid 2 70.25" by (simp add: on_grid_def)
  then show "final_cycle_hours r \<le> 70.25"
    unfolding r using trip_state_cycle [OF s] by (rule round_py_le)
qed

theorem final_cycle_hours_bound_witness:
  "calculate_trip 0 (HOSCalculator 67.75) 0 0 0 0 ''A'' ''B'' ''C'' \<noteq> None \<and>
   final_cycle_hours (the (calculate_trip 0 (HOSCalculator 67.75) 0 0 0 0 ''A'' ''B'' ''C''))
     \<le> 70.25"
proof -
  have ne: "calculate_trip 0 (HOSCalculator 67.75) 0 0 0 0 ''A'' ''B'' ''C'' \<noteq> None"
    using short_trip_result by auto
  then have "calculate_trip 0 (HOSCalculator 67.75) 0 0 0 0 ''A'' ''B'' ''C'' =
      Some (the (calculate_trip 0 (HOSCalculator 67.75) 0 0 0 0 ''A'' ''B'' ''C''))"
    by simp
  with final_cycle_hours_bound ne show ?thesis
    by blast
qed

section \<open>The daily totals\<close>

lemma calc_totals_sum: "\<bar>totals_sum (calc_totals acts) - 24\<bar> \<le> 0.01"
proof -
  define t1 where "t1 = foldl add_total
    \<lparr>off_duty = 0, sleeper_berth = 0, driving = 0, on_duty_not_driving = 0\<rparr> acts"
  define a where "a = round_py (off_duty t1) 2"
  define b where "b = round_py (sleeper_berth t1) 2"
  define c where "c = round_py (driving t1) 2"
  define d where "d = round_py (on_duty_not_driving t1) 2"
  define t2 where
    "t2 = \<lparr>off_duty = a, sleeper_berth = b, driving = c, on_duty_not_driving = d\<rparr>"
  define a' where "a' = round_py (off_duty t2 + (24 - totals_sum t2)) 2"
  have ct: "calc_totals acts =
      (if \<bar>totals_sum t2 - 24\<bar> > 0.01 then t2\<lparr>off_duty := a'\<rparr> else t2)"
    unfolding calc_totals_def Let_def t1_def t2_def a_def b_def c_def d_def a'_def ..
  have sel: "off_duty t2 = a" "sleeper_berth t2 = b" "driving t2 = c"
    "on_duty_not_driving t2 = d"
    by (simp_all add: t2_def)
  have g: "on_grid 2 (off_duty t2 + (24 - totals_sum t2))"
    unfolding totals_sum_def sel
    unfolding a_def b_def c_def d_def
    by (intro on_grid_add on_grid_diff on_grid_numeral on_grid_round_py)
  have a': "a' = off_duty t2 + (24 - totals_sum t2)"
    unfolding a'_def by (rule round_py_on_grid [OF g])
  show ?thesis
  proof (cases "\<bar>totals_sum t2 - 24\<bar> > 0.01")
    case True
    then have "calc_totals acts = t2\<lparr>off_duty := a'\<rparr>"
      by (simp only: ct if_True)
    then have "totals_sum (calc_totals acts) = 24"
      by (simp add: totals_sum_def a')
    then show ?thesis by simp
  next
    case False
    then have "calc_totals acts = t2"
      by (simp only: ct if_False)
    with False show ?thesis by simp
  qed
qed

text \<open>
  Claim C2: for every event list and anchor date, every daily log that
  \<open>generate_daily_logs\<close> returns, the last partial day included, has four status
  totals that sum to 24 within 0.01.
\<close>

theorem daily_totals_sum_24:
  "lg \<in> set (generate_daily_logs evs d) \<Longrightarrow> \<bar>totals_sum (totals lg) - 24\<bar> \<le> 0.01"
proof -
  assume "lg \<in> set (generate_daily_logs evs d)"
  then obtain i where "lg = day_log evs d i"
    by (auto simp: generate_daily_logs_def Let_def split: if_splits)
  then obtain acts where "totals lg = calc_totals acts"
    by (auto simp: day_log_def Let_def split: prod.splits)
  then show ?thesis
    using calc_totals_sum [of acts] by simp
qed

section \<open>The number of daily logs\<close>

text \<open>
  Claim C10: the partitioner returns no daily log for an empty event list, and at least
  one for every other event list.
\<close>

theorem daily_logs_empty_iff:
  "generate_daily_logs [] d = [] \<and> (generate_daily_logs evs d \<noteq> [] \<longleftrightarrow> evs \<noteq> [])"
  by (simp add: generate_daily_logs_def Let_def)

section \<open>Evaluation of the simulator on concrete inputs\<close>

lemmas sim_eval =
  drive_iter_def pre_drive_def check_cycle_def check_shift_def check_break_def check_fuel_def
  can_drive_def drive_increment_def rest_def restart_def take_break_def fuel_stop_def
  do_on_duty_def trip_begin_def post_trip_def drive_leg_def drive_def trip_state_def
  calculate_trip_def HOSCalculator_def leg_driving_starts_def trip_driving_starts_def
  hos_consts round_py_def py_round_def Let_def min_def max_def eval_nat_numeral

section \<open>The state in which driving starts\<close>

text \<open>
  What the four checks at the head of the loop body establish, from any state: less than
  11 hours of shift driving, at most 14 hours since the shift started, less than 8 hours
  of driving since the last break, and cycle hours below 70.5 (below 70 after the cycle
  check, plus the 0.5 hours of a fuel stop, which is made after that check).
\<close>

lemma pre_drive_bounds:
  "shift_driving (pre_drive seg f t s rem) < 11 \<and>
   clock (pre_drive seg f t s rem) - shift_start (pre_drive seg f t s rem) \<le> 14 \<and>
   driving_since_break (pre_drive seg f t s rem) < 8 \<and>
   cycle_hours (pre_drive seg f t s rem) < 70.5"
  by (simp add: pre_drive_def check_cycle_def check_shift_def check_break_def check_fuel_def
      rest_def restart_def take_break_def fuel_stop_def hos_consts Let_def)

text \<open>
  Claim C1, evaluated where the code departs from it: with 48.55 cycle hours used, a
  first leg of 0 miles and a second leg of 1200 miles in 24 hours, the trip reaches its
  1000th mile with 69.8 cycle hours. The pass of the loop that follows finds the cycle
  below 70, makes the fuel stop (0.5 hours on duty, no cycle check), and appends a
  driving event at clock 40.75 in a state with 70.3 cycle hours. The first list gives,
  for each driving event of the trip, the clock and the cycle hours of the state it
  starts in; the second gives the status, clock and duration of every event the trip
  returns (the 48.55 hours and the on-duty and driving durations before clock 40.75 add
  up to 70.3).
\<close>

theorem driving_starts_over_cycle_limit:
  "map (\<lambda>s. (clock s, cycle_hours s))
     (trip_driving_starts 6 (HOSCalculator 48.55) 0 0 1200 24 ''A'' ''B'' ''C'') =
     [(9.25, 49.8), (17.75, 57.8), (30.75, 60.8), (39.25, 68.8), (40.75, 70.3), (74.76, 0)] \<and>
   map_option (\<lambda>r. map (\<lambda>e. (ev_status e, ev_clock e, ev_duration e)) (res_events r))
     (calculate_trip 6 (HOSCalculator 48.55) 0 0 1200 24 ''A'' ''B'' ''C'') =
     Some [(''on_duty_not_driving'', 8, 0.25), (''on_duty_not_driving'', 8.25, 1),
           (''driving'', 9.25, 8), (''off_duty'', 17.25, 0.5), (''driving'', 17.75, 3),
           (''sleeper_berth'', 20.75, 10), (''driving'', 30.75, 8), (''off_duty'', 38.75, 0.5),
           (''driving'', 39.25, 1), (''on_duty_not_driving'', 40.25, 0.5),
           (''driving'', 40.75, 0.01), (''sleeper_berth'', 40.76, 34),
           (''driving'', 74.76, 3.99), (''on_duty_not_driving'', 78.75, 1),
           (''on_duty_not_driving'', 79.75, 0.25)]"
  by (simp add: sim_eval evt_def cong: let_weak_cong)

section \<open>The safety stop of the drive loop\<close>

lemma can_drive_floor: "0.01 \<le> can_drive avg s rem"
  unfolding can_drive_def Let_def by (rule max.cobounded1)





section \<open>A day of a concrete event list\<close>

text \<open>
  One driving event from hour 20 to hour 30: the second daily log holds its last 6 hours
  and 18 hours of off duty.
\<close>

theorem daily_totals_sum_24_witness:
  "generate_daily_logs
     [\<lparr>ev_status = ''driving'', ev_clock = 20, ev_duration = 10, ev_description = ''Driving'',
       ev_location = ''A'', ev_distance = 0, ev_miles = Some 600\<rparr>] 0 ! 1
   \<in> set (generate_daily_logs
     [\<lparr>ev_status = ''driving'', ev_clock = 20, ev_duration = 10, ev_description = ''Driving'',
       ev_location = ''A'', ev_distance = 0, ev_miles = Some 600\<rparr>] 0) \<and>
   \<bar>totals_sum (totals (generate_daily_logs
     [\<lparr>ev_status = ''driving'', ev_clock = 20, ev_duration = 10, ev_description = ''Driving'',
       ev_location = ''A'', ev_distance = 0, ev_miles = Some 600\<rparr>] 0 ! 1)) - 24\<bar> \<le> 0.01 \<and>
   totals (generate_daily_logs
     [\<lparr>ev_status = ''driving'', ev_clock = 20, ev_duration = 10, ev_description = ''Driving'',
       ev_location = ''A'', ev_distance = 0, ev_miles = Some 600\<rparr>] 0 ! 1) =
     \<lparr>off_duty = 18, sleeper_berth = 0, driving = 6, on_duty_not_driving = 0\<rparr>"
proof -
  have len: "length (generate_daily_logs
     [\<lparr>ev_status = ''driving'', ev_clock = 20, ev_duration = 10, ev_description = ''Driving'',
       ev_location = ''A'', ev_distance = 0, ev_miles = Some 600\<rparr>] 0) = 2"
    by (simp add: generate_daily_logs_def Let_def)
  have mem: "generate_daily_logs
     [\<lparr>ev_status = ''driving'', ev_clock = 20, ev_duration = 10, ev_description = ''Driving'',
       ev_location = ''A'', ev_distance = 0, ev_miles = Some 600\<rparr>] 0 ! 1
   \<in> set (generate_daily_logs
     [\<lparr>ev_status = ''driving'', ev_clock = 20, ev_duration = 10, ev_description = ''Driving'',
       ev_location = ''A'', ev_distance = 0, ev_miles = Some 600\<rparr>] 0)"
    by (rule nth_mem) (simp add: len)
  have tot: "totals (generate_daily_logs
     [\<lparr>ev_status = ''driving'', ev_clock = 20, ev_duration = 10, ev_description = ''Driving'',
       ev_location = ''A'', ev_distance = 0, ev_miles = Some 600\<rparr>] 0 ! 1) =
     \<lparr>off_duty = 18, sleeper_berth = 0, driving = 6, on_duty_not_driving = 0\<rparr>"
    by code_simp
  from mem daily_totals_sum_24 [OF mem] tot show ?thesis
    by blast
qed

section \<open>The invariant of the simulation state\<close>

lemma sim_inv_rest: "sim_inv (rest s l)"
  by (simp add: sim_inv_def rest_def)

lemma sim_inv_restart: "sim_inv (restart s l)"
  by (simp add: sim_inv_def restart_def)

lemma sim_inv_take_break: "sim_inv s \<Longrightarrow> sim_inv (take_break s l)"
  by (simp add: sim_inv_def take_break_def hos_consts)

lemma sim_inv_fuel_stop: "sim_inv s \<Longrightarrow> sim_inv (fuel_stop s l)"
  by (simp add: sim_inv_def fuel_stop_def hos_consts)

lemma sim_inv_drive_increment:
  "sim_inv s \<Longrightarrow> 0 \<le> dt \<Longrightarrow> sim_inv (drive_increment seg f t s rem dt dm)"
  by (simp add: sim_inv_def drive_increment_def)



lemma sim_inv_trip_begin: "sim_inv (trip_begin self cur)"
  by (simp add: sim_inv_def trip_begin_def Let_def hos_consts)

lemma sim_inv_pre_drive: "sim_inv s \<Longrightarrow> sim_inv (pre_drive seg f t s rem)"
  unfolding pre_drive_def check_cycle_def check_shift_def check_break_def check_fuel_def Let_def
  by (simp add: sim_inv_rest sim_inv_restart sim_inv_take_break sim_inv_fuel_stop)

text \<open>
  The three ways a pass of the loop ends, with what is known of the increment it makes.
\<close>

lemma drive_iter_result:
  obtains (stopped) "drive_iter seg avg f t s rem = Safety_stop (pre_drive seg f t s rem)"
  | (finished) dt dm where "0 \<le> dt" "on_grid 2 dt"
      "drive_iter seg avg f t s rem =
         Segment_done (drive_increment seg f t (pre_drive seg f t s rem) rem dt dm)"
  | (again) dt dm rem' where "0 \<le> dt" "on_grid 2 dt"
      "drive_iter seg avg f t s rem =
         Keep_driving (drive_increment seg f t (pre_drive seg f t s rem) rem dt dm) rem'"
proof -
  define s4 where "s4 = pre_drive seg f t s rem"
  define dm0 where "dm0 = min (can_drive avg s4 rem * avg) rem"
  define dt0 where "dt0 = (if avg > 0 then dm0 / avg else 0)"
  have unf: "drive_iter seg avg f t s rem =
     (if dt0 < 0.01 then Safety_stop s4
      else if rem - round_py dm0 1 < 0.5
           then Segment_done (drive_increment seg f t s4 rem (round_py dt0 2) (round_py dm0 1))
           else Keep_driving (drive_increment seg f t s4 rem (round_py dt0 2) (round_py dm0 1))
                  (rem - round_py dm0 1))"
    unfolding drive_iter_def Let_def s4_def dm0_def dt0_def ..
  have g: "on_grid 2 (round_py dt0 2)" by (rule on_grid_round_py)
  show thesis
  proof (cases "dt0 < 0.01")
    case True
    then have "drive_iter seg avg f t s rem = Safety_stop s4"
      by (simp only: unf if_True)
    then show thesis
      unfolding s4_def by (rule stopped)
  next
    case False
    then have "0 \<le> dt0" by simp
    then have dt: "0 \<le> round_py dt0 2"
      by (rule round_py_ge [OF on_grid_numeral(2)])
    show thesis
    proof (cases "rem - round_py dm0 1 < 0.5")
      case True
      with False have "drive_iter seg avg f t s rem =
          Segment_done (drive_increment seg f t s4 rem (round_py dt0 2) (round_py dm0 1))"
        by (simp only: unf if_True if_False)
      with dt g show thesis
        unfolding s4_def by (rule finished)
    next
      case False2: False
      with False have "drive_iter seg avg f t s rem =
          Keep_driving (drive_increment seg f t s4 rem (round_py dt0 2) (round_py dm0 1))
            (rem - round_py dm0 1)"
        by (simp only: unf if_False)
      with dt g show thesis
        unfolding s4_def by (rule again)
    qed
  qed
qed

text \<open>
  A property of the state that the four checks and every drive increment keep is kept by
  a pass of the loop, and by the loop.
\<close>

lemma drive_iter_invariant:
  assumes pre: "\<And>s rem. P s \<Longrightarrow> P (pre_drive seg f t s rem)"
    and inc: "\<And>s rem dt dm. P s \<Longrightarrow> 0 \<le> dt \<Longrightarrow> on_grid 2 dt \<Longrightarrow>
        P (drive_increment seg f t s rem dt dm)"
    and s: "P s"
    and it: "drive_iter seg avg f t s rem = Safety_stop s' \<or>
       drive_iter seg avg f t s rem = Segment_done s' \<or>
       drive_iter seg avg f t s rem = Keep_driving s' rem'"
  shows "P s'"
  using pre [OF s, of rem] it
  by (cases rule: drive_iter_result [of seg avg f t s rem]) (auto intro: inc)

lemma drive_loop_invariant:
  assumes pre: "\<And>s rem. P s \<Longrightarrow> P (pre_drive seg f t s rem)"
    and inc: "\<And>s rem dt dm. P s \<Longrightarrow> 0 \<le> dt \<Longrightarrow> on_grid 2 dt \<Longrightarrow>
        P (drive_increment seg f t s rem dt dm)"
  shows "P s \<Longrightarrow> drive_loop n seg avg f t s rem = Some s' \<Longrightarrow> P s'"
proof (induction n arbitrary: s rem)
  case 0
  then show ?case by (simp split: if_splits)
next
  case (Suc n)
  have it: "drive_iter seg avg f t s rem = Safety_stop x \<Longrightarrow> P x"
    "drive_iter seg avg f t s rem = Segment_done x \<Longrightarrow> P x"
    "drive_iter seg avg f t s rem = Keep_driving x r \<Longrightarrow> P x" for x r
    using drive_iter_invariant [where P = P and seg = seg and f = f and t = t and s = s
        and avg = avg and rem = rem and s' = x and rem' = r, OF pre inc Suc.prems(1)]
    by blast+
  show ?case
  proof (cases "rem > 0.5")
    case False
    with Suc.prems show ?thesis by simp
  next
    case True
    show ?thesis
    proof (cases "drive_iter seg avg f t s rem")
      case (Safety_stop x)
      with True Suc.prems it(1) [OF Safety_stop] show ?thesis
        by simp
    next
      case (Segment_done x)
      with True Suc.prems it(2) [OF Segment_done] show ?thesis
        by simp
    next
      case (Keep_driving x r)
      from it(3) [OF Keep_driving] have "P x" .
      moreover from True Suc.prems(2) Keep_driving
      have "drive_loop n seg avg f t x r = Some s'" by simp
      ultimately show ?thesis by (rule Suc.IH)
    qed
  qed
qed

lemma drive_leg_invariant:
  assumes pre: "\<And>seg s rem. P s \<Longrightarrow> P (pre_drive seg f t s rem)"
    and inc: "\<And>seg s rem dt dm. P s \<Longrightarrow> 0 \<le> dt \<Longrightarrow> on_grid 2 dt \<Longrightarrow>
        P (drive_increment seg f t s rem dt dm)"
    and s: "P s" and leg: "drive_leg n s miles hours f t = Some s'"
  shows "P s'"
proof (cases "miles > 0.5")
  case True
  define speed where "speed = (if hours > 0 then miles / hours else 55)"
  from True leg have "drive_loop n miles speed f t s miles = Some s'"
    by (simp add: drive_leg_def drive_def speed_def)
  with s show ?thesis
    using drive_loop_invariant [where P = P and seg = miles and f = f and t = t and s = s
        and s' = s' and n = n and avg = speed and rem = miles] pre inc
    by blast
next
  case False
  with s leg show ?thesis
    by (simp add: drive_leg_def)
qed








section \<open>The days of a 30-hour event list\<close>










lemma gapless_le: "gapless a A z \<Longrightarrow> a \<le> z"
  by (induction A arbitrary: a) fastforce+


















section \<open>The clock keeps two decimals\<close>

text \<open>
  Every duration the simulator adds to the clock has at most two decimals (the drive
  time is rounded to two before it is added), so the clock of every state of a trip has
  two decimals, and the clock that \<open>_evt\<close> rounds into an event is the clock itself.
\<close>

lemma on_grid_durations:
  "on_grid 2 REQUIRED_REST" "on_grid 2 RESTART_HOURS" "on_grid 2 BREAK_DURATION"
  "on_grid 2 FUEL_DURATION" "on_grid 2 PICKUP_DURATION" "on_grid 2 DROPOFF_DURATION"
  "on_grid 2 PRE_TRIP_DURATION" "on_grid 2 POST_TRIP_DURATION" "on_grid 2 START_HOUR"
  by (simp_all add: hos_consts on_grid_def)

lemma clock_grid_rest: "on_grid 2 (clock s) \<Longrightarrow> on_grid 2 (clock (rest s l))"
  by (simp add: rest_def on_grid_add on_grid_durations)

lemma clock_grid_restart: "on_grid 2 (clock s) \<Longrightarrow> on_grid 2 (clock (restart s l))"
  by (simp add: restart_def on_grid_add on_grid_durations)

lemma clock_grid_take_break: "on_grid 2 (clock s) \<Longrightarrow> on_grid 2 (clock (take_break s l))"
  by (simp add: take_break_def on_grid_add on_grid_durations)

lemma clock_grid_fuel_stop: "on_grid 2 (clock s) \<Longrightarrow> on_grid 2 (clock (fuel_stop s l))"
  by (simp add: fuel_stop_def on_grid_add on_grid_durations)

lemma clock_grid_drive_increment:
  "on_grid 2 (clock s) \<Longrightarrow> on_grid 2 dt \<Longrightarrow>
   on_grid 2 (clock (drive_increment seg f t s rem dt dm))"
  by (simp add: drive_increment_def on_grid_add)

lemma clock_grid_do_on_duty:
  "on_grid 2 (clock s) \<Longrightarrow> on_grid 2 d \<Longrightarrow> on_grid 2 (clock (do_on_duty s d desc l))"
  by (simp add: do_on_duty_def rest_def restart_def Let_def on_grid_add on_grid_durations)

lemma clock_grid_post_trip: "on_grid 2 (clock s) \<Longrightarrow> on_grid 2 (clock (post_trip s l))"
  by (simp add: post_trip_def on_grid_add on_grid_durations)

lemma clock_grid_trip_begin: "on_grid 2 (clock (trip_begin self cur))"
  by (simp add: trip_begin_def Let_def on_grid_add on_grid_durations)

lemma clock_grid_pre_drive:
  "on_grid 2 (clock s) \<Longrightarrow> on_grid 2 (clock (pre_drive seg f t s rem))"
  unfolding pre_drive_def check_cycle_def check_shift_def check_break_def check_fuel_def Let_def
  by (simp add: clock_grid_rest clock_grid_restart clock_grid_take_break clock_grid_fuel_stop)

lemma clock_grid_drive_leg:
  "on_grid 2 (clock s) \<Longrightarrow> drive_leg n s miles hours f t = Some s' \<Longrightarrow>
   on_grid 2 (clock s')"
  using drive_leg_invariant [where P = "\<lambda>s. on_grid 2 (clock s)" and f = f and t = t
      and s = s and s' = s' and n = n and miles = miles and hours = hours]
    clock_grid_pre_drive clock_grid_drive_increment
  by blast

lemma clock_grid_trip_state:
  assumes "trip_state n self l1m l1h l2m l2h a b c = Some s"
  shows "on_grid 2 (clock s)"
proof -
  from assms obtain s2 s4 where
    s2: "drive_leg n (trip_begin self a) l1m l1h a b = Some s2" and
    s4: "drive_leg n (do_on_duty s2 PICKUP_DURATION ''Pickup / Loading'' b) l2m l2h b c
           = Some s4" and
    s: "s = post_trip (do_on_duty s4 DROPOFF_DURATION ''Dropoff / Unloading'' c) c"
    by (auto simp: trip_state_def split: option.splits)
  have "on_grid 2 (clock s2)"
    using clock_grid_trip_begin s2 by (rule clock_grid_drive_leg)
  then have "on_grid 2 (clock (do_on_duty s2 PICKUP_DURATION ''Pickup / Loading'' b))"
    by (rule clock_grid_do_on_duty) (rule on_grid_durations)
  then have "on_grid 2 (clock s4)"
    using s4 by (rule clock_grid_drive_leg)
  then have "on_grid 2 (clock (do_on_duty s4 DROPOFF_DURATION ''Dropoff / Unloading'' c))"
    by (rule clock_grid_do_on_duty) (rule on_grid_durations)
  then show ?thesis
    unfolding s by (rule clock_grid_post_trip)
qed

section \<open>A drive loop that does not end\<close>

text \<open>
  Why the loop runs on fuel: at 0.0006 mph (a leg of 0.6 miles given 1000 hours) a pass
  drives at most 8 hours, that is 0.0048 miles, which \<open>round(drive_miles, 1)\<close> makes
  0.0; \<open>remaining\<close> stays 0.6 and the loop never leaves. No number of passes makes
  \<open>calculate_trip\<close> return on such a leg.
\<close>

lemma round_py_small: "0 \<le> x \<Longrightarrow> x < 1 / 20 \<Longrightarrow> round_py x 1 = 0"
proof -
  assume a: "0 \<le> x" "x < 1 / 20"
  then have f: "\<lfloor>x * 10\<rfloor> = 0" by (simp add: floor_eq_iff)
  from a have "x * 10 < 1 / 2" by simp
  with f show ?thesis
    by (simp add: round_py_def py_round_def)
qed

lemma can_drive_le_break:
  "can_drive avg s rem \<le> max 0.01 (BREAK_AFTER_DRIVING - driving_since_break s)"
proof -
  define tb where "tb = max 0.01 (BREAK_AFTER_DRIVING - driving_since_break s)"
  have "0.01 \<le> tb" unfolding tb_def by (rule max.cobounded1)
  moreover have "min tb x \<le> tb" for x :: real by (rule min.cobounded1)
  ultimately show ?thesis
    unfolding can_drive_def Let_def tb_def [symmetric]
    by (rule max.boundedI)
qed

lemma slow_pass:
  assumes "sim_inv s"
  shows "\<exists>s'. drive_iter 0.6 0.0006 f t s 0.6 = Keep_driving s' 0.6 \<and> sim_inv s'"
proof -
  define avg :: real where "avg = 0.0006"
  define rem :: real where "rem = 0.6"
  define s4 where "s4 = pre_drive rem f t s rem"
  define cd where "cd = can_drive avg s4 rem"
  define dm0 where "dm0 = min (cd * avg) rem"
  define dt0 where "dt0 = (if avg > 0 then dm0 / avg else 0)"
  have unf: "drive_iter rem avg f t s rem =
     (if dt0 < 0.01 then Safety_stop s4
      else if rem - round_py dm0 1 < 0.5
           then Segment_done (drive_increment rem f t s4 rem (round_py dt0 2) (round_py dm0 1))
           else Keep_driving (drive_increment rem f t s4 rem (round_py dt0 2) (round_py dm0 1))
                  (rem - round_py dm0 1))"
    unfolding drive_iter_def Let_def s4_def dm0_def dt0_def cd_def ..
  have i4: "sim_inv s4"
    unfolding s4_def using assms by (rule sim_inv_pre_drive)
  then have "0 \<le> driving_since_break s4" by (simp add: sim_inv_def)
  with can_drive_le_break [of avg s4 rem] have hi: "cd \<le> 8"
    by (simp add: cd_def hos_consts)
  have lo: "0.01 \<le> cd"
    unfolding cd_def by (rule can_drive_floor)
  have dm: "dm0 = cd * avg"
    unfolding dm0_def using hi by (simp add: avg_def rem_def)
  have dt: "dt0 = cd"
    unfolding dt0_def dm by (simp add: avg_def)
  have "0 \<le> dm0" "dm0 < 1 / 20"
    unfolding dm using lo hi by (simp_all add: avg_def)
  then have r1: "round_py dm0 1 = 0"
    by (rule round_py_small)
  have r2: "0 \<le> round_py dt0 2"
    unfolding dt using lo by (intro round_py_ge on_grid_numeral) simp
  have c1: "\<not> dt0 < 0.01"
    unfolding dt using lo by simp
  have c2: "\<not> rem - round_py dm0 1 < 0.5"
    unfolding r1 by (simp add: rem_def)
  have "drive_iter rem avg f t s rem =
      Keep_driving (drive_increment rem f t s4 rem (round_py dt0 2) (round_py dm0 1))
        (rem - round_py dm0 1)"
    using c1 c2 by (simp only: unf if_False)
  then have "drive_iter rem avg f t s rem =
      Keep_driving (drive_increment rem f t s4 rem (round_py dt0 2) (round_py dm0 1)) rem"
    unfolding r1 by simp
  moreover have "sim_inv (drive_increment rem f t s4 rem (round_py dt0 2) (round_py dm0 1))"
    using i4 r2 by (rule sim_inv_drive_increment)
  ultimately show ?thesis
    unfolding avg_def rem_def by blast
qed

lemma slow_loop:
  "sim_inv s \<Longrightarrow> drive_loop n 0.6 0.0006 f t s 0.6 = None"
proof (induction n arbitrary: s)
  case 0
  then show ?case by simp
next
  case (Suc n)
  from slow_pass [OF Suc.prems, of f t] obtain s' where
    "drive_iter 0.6 0.0006 f t s 0.6 = Keep_driving s' 0.6" "sim_inv s'" by blast
  with Suc.IH [of s'] show ?case by simp
qed

lemma slow_trip: "calculate_trip n self 0.6 1000 l2m l2h a b c = None"
proof -
  have "drive_leg n (trip_begin self a) 0.6 1000 a b = None"
    using slow_loop [OF sim_inv_trip_begin, of n a b self a]
    by (simp add: drive_leg_def drive_def)
  then show ?thesis
    by (simp add: calculate_trip_def trip_state_def)
qed

end
